theory Spec2Isabelle
  imports Main
begin

section \<open>NEXUS AI login demo: credential store, sessions, reset tokens, password strength\<close>

text \<open>
  A shallow embedding of \<^verbatim>\<open>src/js/auth.js\<close> and of the strength check of
  \<^verbatim>\<open>src/js/validation.js\<close>.

  \<^item> A JavaScript string is a sequence of UTF-16 code units. The model covers the strings
    whose code units are below 256 (Basic Latin and Latin-1 Supplement) and writes them as
    \<^typ>\<open>string\<close>, one \<^typ>\<open>char\<close> per code unit; \<open>length\<close>, \<open>===\<close>,
    \<open>endsWith\<close>, the character classes of the regular expressions and
    \<open>toLowerCase\<close> all work code unit by code unit there.
  \<^item> \<open>localStorage\<close> is a record of its three slots, \<open>None\<close> for an absent key.
    \<open>JSON.parse (JSON.stringify v)\<close> is \<open>v\<close> for the objects stored here, so a slot
    holds the value itself.
  \<^item> The array \<open>DEMO_USERS\<close> is a mutable object in memory: \<open>getUsers\<close> returns the
    array itself when the users slot is absent and \<open>resetPassword\<close> writes into what
    \<open>getUsers\<close> returned. The state therefore has a field for the array's current
    contents, beside the literal it starts from.
  \<^item> A point in time is the number of milliseconds since the epoch, as \<open>Date.now()\<close>
    returns it; \<open>new Date (new Date (t).toISOString ())\<close> is \<open>t\<close> again, at the
    millisecond precision of both. Every reading of the clock is a parameter of the
    operation that reads it, and so is the outcome of \<open>Math.random\<close>.
  \<^item> The two simulated logins resolve a promise from a timer; the model is the body of the
    timer's callback, run on the state it finds when it fires.
\<close>

subsection \<open>Data\<close>

text \<open>The view of a user that the login functions hand out: it has no password field.\<close>

record user_view =
  email :: string
  role :: string
  type :: string
  name :: string

text \<open>A stored user: the four fields of the view and the password.\<close>

record user = user_view +
  password :: string

text \<open>The session slot: the user's fields spread, then the two time stamps.\<close>

record session = user_view +
  loginTime :: int
  expiresAt :: int

record reset_data =
  email :: string
  token :: string
  expiresAt :: int

record state =
  demo_users :: "user list"
  nexus_ai_users :: "user list option"
  nexus_ai_session :: "session option"
  nexus_reset_token :: "reset_data option"

text \<open>A result object: \<open>{success: false, error}\<close> or \<open>{success: true, ...}\<close>.\<close>

datatype 'a result = Failure string | Success 'a

definition DEMO_USERS :: "user list" where
  "DEMO_USERS =
    [\<lparr>user_view.email = ''superadmin@intuvia.com'', role = ''Super Admin'', type = ''enterprise'',
       name = ''John Smith'', password = ''Admin@123''\<rparr>,
     \<lparr>user_view.email = ''admin@intuvia.com'', role = ''Admin'', type = ''enterprise'',
       name = ''Sarah Johnson'', password = ''Admin@123''\<rparr>,
     \<lparr>user_view.email = ''viewer@intuvia.com'', role = ''Viewer'', type = ''enterprise'',
       name = ''Mike Wilson'', password = ''Viewer@123''\<rparr>,
     \<lparr>user_view.email = ''user@example.com'', role = ''Attendee'', type = ''normal'',
       name = ''Emily Davis'', password = ''User@123''\<rparr>,
     \<lparr>user_view.email = ''organizer@example.com'', role = ''Organizer'', type = ''normal'',
       name = ''Alex Brown'', password = ''Organizer@123''\<rparr>]"

text \<open>A freshly loaded page with an empty \<open>localStorage\<close>.\<close>

definition fresh :: state where
  "fresh = \<lparr>demo_users = DEMO_USERS, nexus_ai_users = None, nexus_ai_session = None,
     nexus_reset_token = None\<rparr>"

subsection \<open>Strings\<close>

text \<open>
  \<open>String.prototype.toLowerCase\<close> on code units below 256: the letters \<open>A\<close> to \<open>Z\<close>
  and the capital letters of Latin-1 (U+00C0 to U+00DE without the multiplication sign
  U+00D7) move up by 32; every other code unit stays.
\<close>

definition toLowerCaseChar :: "char \<Rightarrow> char" where
  "toLowerCaseChar c =
     (let n = (of_char c :: nat) in
      if (65 \<le> n \<and> n \<le> 90) \<or> (192 \<le> n \<and> n \<le> 214) \<or> (216 \<le> n \<and> n \<le> 222)
      then char_of (n + 32) else c)"

definition toLowerCase :: "string \<Rightarrow> string" where
  "toLowerCase s = map toLowerCaseChar s"

text \<open>\<open>s.endsWith (t)\<close>: the last \<open>t.length\<close> code units of \<open>s\<close> are \<open>t\<close>.\<close>

definition endsWith :: "string \<Rightarrow> string \<Rightarrow> bool" where
  "endsWith s t = (length t \<le> length s \<and> drop (length s - length t) s = t)"

text \<open>\<open>Number.prototype.toString (36)\<close> on an integer.\<close>

definition digit36 :: "nat \<Rightarrow> char" where
  "digit36 d = ''0123456789abcdefghijklmnopqrstuvwxyz'' ! d"

function toString36_nat :: "nat \<Rightarrow> string" where
  "toString36_nat n =
     (if n < 36 then [digit36 n] else toString36_nat (n div 36) @ [digit36 (n mod 36)])"
  by pat_completeness auto
termination
  by (relation "measure id") auto

declare toString36_nat.simps [simp del]

definition toString36 :: "int \<Rightarrow> string" where
  "toString36 i = (if i < 0 then CHR ''-'' # toString36_nat (nat (- i)) else toString36_nat (nat i))"

text \<open>\<open>Array.prototype.findIndex\<close>: the index of the first match, or \<open>-1\<close>.\<close>

fun findIndex :: "('a \<Rightarrow> bool) \<Rightarrow> 'a list \<Rightarrow> int" where
  "findIndex P [] = - 1"
| "findIndex P (x # xs) =
     (if P x then 0 else (let i = findIndex P xs in if i = - 1 then - 1 else i + 1))"

subsection \<open>The credential store\<close>

definition initAuth :: "state \<Rightarrow> state" where
  "initAuth st =
     (if nexus_ai_users st = None then st\<lparr>nexus_ai_users := Some (demo_users st)\<rparr> else st)"

definition getUsers :: "state \<Rightarrow> user list" where
  "getUsers st = (case nexus_ai_users st of Some users \<Rightarrow> users | None \<Rightarrow> demo_users st)"

definition saveUsers :: "user list \<Rightarrow> state \<Rightarrow> state" where
  "saveUsers users st = st\<lparr>nexus_ai_users := Some users\<rparr>"

text \<open>The object literal \<open>{email, role, type, name}\<close> that every login builds from a user.\<close>

definition sanitize :: "user \<Rightarrow> user_view" where
  "sanitize u = \<lparr>user_view.email = user_view.email u, role = role u, type = type u, name = name u\<rparr>"

subsection \<open>Login with email and password\<close>

definition validateLogin :: "string \<Rightarrow> string \<Rightarrow> state \<Rightarrow> user_view result \<times> state" where
  "validateLogin email' password' st =
     (let users = getUsers st in
      case find (\<lambda>u. toLowerCase (user_view.email u) = toLowerCase email') users of
        None \<Rightarrow> (Failure ''No account found with this email address.'', st)
      | Some u \<Rightarrow>
          if password u \<noteq> password'
          then (Failure ''Invalid email or password. Please try again.'', st)
          else (Success \<lparr>user_view.email = user_view.email u, role = role u, type = type u,
                  name = name u\<rparr>, st))"

subsection \<open>Sessions\<close>

text \<open>
  \<open>createSession\<close> reads the clock twice: \<open>tLogin\<close> is \<open>new Date ()\<close> of the login
  time, \<open>tNow\<close> the \<open>Date.now ()\<close> of the expiry.
\<close>

definition createSession :: "int \<Rightarrow> int \<Rightarrow> user_view \<Rightarrow> state \<Rightarrow> state" where
  "createSession tLogin tNow u st =
     st\<lparr>nexus_ai_session :=
       Some \<lparr>user_view.email = user_view.email u, role = role u, type = type u, name = name u,
         loginTime = tLogin, expiresAt = tNow + 24 * 60 * 60 * 1000\<rparr>\<rparr>"

definition logout :: "state \<Rightarrow> state" where
  "logout st = st\<lparr>nexus_ai_session := None\<rparr>"

definition getSession :: "int \<Rightarrow> state \<Rightarrow> session option \<times> state" where
  "getSession now st =
     (case nexus_ai_session st of
        None \<Rightarrow> (None, st)
      | Some sessionData \<Rightarrow>
          if session.expiresAt sessionData < now then (None, logout st)
          else (Some sessionData, st))"

definition isLoggedIn :: "int \<Rightarrow> state \<Rightarrow> bool \<times> state" where
  "isLoggedIn now st = (case getSession now st of (s, st') \<Rightarrow> (s \<noteq> None, st'))"

definition getUserRole :: "int \<Rightarrow> state \<Rightarrow> string option \<times> state" where
  "getUserRole now st = (case getSession now st of (s, st') \<Rightarrow> (map_option role s, st'))"

definition getUserType :: "int \<Rightarrow> state \<Rightarrow> string option \<times> state" where
  "getUserType now st = (case getSession now st of (s, st') \<Rightarrow> (map_option type s, st'))"

subsection \<open>Reset tokens\<close>

text \<open>
  \<open>rnd\<close> is the string \<open>Math.random ().toString (36).substr (2, 9)\<close>, \<open>now\<close> the
  reading of \<open>Date.now ()\<close>.
\<close>

definition generateResetToken :: "string \<Rightarrow> int \<Rightarrow> string" where
  "generateResetToken rnd now = ''reset_'' @ rnd @ toString36 now"

record forgot_reply =
  message :: string
  resetUrl :: string

text \<open>
  \<open>handleForgotPassword\<close> reads the clock twice: \<open>tTok\<close> inside
  \<open>generateResetToken\<close>, \<open>tNow\<close> for the expiry.
\<close>

definition handleForgotPassword ::
    "string \<Rightarrow> int \<Rightarrow> int \<Rightarrow> string \<Rightarrow> state \<Rightarrow> forgot_reply result \<times> state" where
  "handleForgotPassword rnd tTok tNow email' st =
     (let users = getUsers st in
      case find (\<lambda>u. toLowerCase (user_view.email u) = toLowerCase email') users of
        None \<Rightarrow> (Failure ''No account found with this email address.'', st)
      | Some u \<Rightarrow>
          (let resetToken = generateResetToken rnd tTok;
               resetData = \<lparr>reset_data.email = user_view.email u, token = resetToken,
                 reset_data.expiresAt = tNow + 30 * 60 * 1000\<rparr>
           in (Success \<lparr>message = ''Password reset link sent to your email.'',
                  resetUrl = ''reset-password.html?token='' @ resetToken\<rparr>,
               st\<lparr>nexus_reset_token := Some resetData\<rparr>)))"

definition validateResetToken :: "int \<Rightarrow> string \<Rightarrow> state \<Rightarrow> string result \<times> state" where
  "validateResetToken now token' st =
     (case nexus_reset_token st of
        None \<Rightarrow> (Failure ''Invalid or expired reset link.'', st)
      | Some resetData \<Rightarrow>
          if token' \<noteq> token resetData then (Failure ''Invalid reset link.'', st)
          else if reset_data.expiresAt resetData < now
          then (Failure ''Reset link has expired. Please request a new one.'',
                st\<lparr>nexus_reset_token := None\<rparr>)
          else (Success (reset_data.email resetData), st))"

text \<open>
  \<open>users[userIndex].password = newPassword\<close> writes into the array that \<open>getUsers\<close>
  returned: the parsed copy when the users slot is present, \<open>DEMO_USERS\<close> itself when it
  is absent.
\<close>

definition resetPassword :: "int \<Rightarrow> string \<Rightarrow> string \<Rightarrow> state \<Rightarrow> string result \<times> state" where
  "resetPassword now token' newPassword st =
     (case validateResetToken now token' st of
        (Failure e, st1) \<Rightarrow> (Failure e, st1)
      | (Success email', st1) \<Rightarrow>
          (let users = getUsers st1;
               userIndex = findIndex
                 (\<lambda>u. toLowerCase (user_view.email u) = toLowerCase email') users
           in if userIndex = - 1 then (Failure ''User not found.'', st1)
              else
                (let users' = users[nat userIndex := (users ! nat userIndex)\<lparr>password := newPassword\<rparr>];
                     st2 = (if nexus_ai_users st1 = None then st1\<lparr>demo_users := users'\<rparr> else st1);
                     st3 = saveUsers users' st2
                 in (Success ''Password changed successfully. Redirecting to login...'',
                     st3\<lparr>nexus_reset_token := None\<rparr>))))"

subsection \<open>Simulated enterprise and social logins\<close>

definition loginWithSSO :: "string \<Rightarrow> state \<Rightarrow> user_view result \<times> state" where
  "loginWithSSO domain st =
     (let users = getUsers st;
          enterpriseUsers = filter
            (\<lambda>u. type u = ''enterprise'' \<and> endsWith (user_view.email u) (CHR ''@'' # domain)) users
      in case enterpriseUsers of
           [] \<Rightarrow> (Failure ''No enterprise users found for this domain.'', st)
         | u # _ \<Rightarrow>
             (Success \<lparr>user_view.email = user_view.email u, role = role u, type = type u,
                name = name u\<rparr>, st))"

text \<open>
  \<open>selectedEmail\<close> is \<open>null\<close> (\<open>None\<close>) by default; \<open>if (selectedEmail)\<close> and
  \<open>selectedEmail || ...\<close> take a string that is not empty. The user found in the store and the object made up for a missing one
  are both read through their four view fields only.
\<close>

definition loginWithGoogle :: "string option \<Rightarrow> state \<Rightarrow> user_view result \<times> state" where
  "loginWithGoogle selectedEmail st =
     (let users = getUsers st;
          truthy = (selectedEmail \<noteq> None \<and> selectedEmail \<noteq> Some []);
          found =
            (if truthy then find (\<lambda>u. Some (user_view.email u) = selectedEmail) users
             else find (\<lambda>u. type u = ''normal'') users);
          u = (case found of
                 Some x \<Rightarrow> sanitize x
               | None \<Rightarrow>
                   \<lparr>user_view.email =
                      (case selectedEmail of
                         Some s \<Rightarrow> if s \<noteq> [] then s else ''google.user@gmail.com''
                       | None \<Rightarrow> ''google.user@gmail.com''),
                    role = ''Attendee'', type = ''normal'', name = ''Google User''\<rparr>)
      in (Success \<lparr>user_view.email = user_view.email u, role = role u, type = type u,
            name = name u\<rparr>, st))"

subsection \<open>Password strength\<close>

record requirements =
  minLength :: bool
  hasUppercase :: bool
  hasLowercase :: bool
  hasNumber :: bool
  hasSpecial :: bool

record strength_report =
  requirements :: requirements
  strength :: string
  allMet :: bool
  score :: nat

text \<open>The character classes of \<open>PATTERNS.password\<close>; \<open>test\<close> looks for one member.\<close>

definition isUppercase :: "char \<Rightarrow> bool" where
  "isUppercase c = (65 \<le> (of_char c :: nat) \<and> (of_char c :: nat) \<le> 90)"

definition isLowercase :: "char \<Rightarrow> bool" where
  "isLowercase c = (97 \<le> (of_char c :: nat) \<and> (of_char c :: nat) \<le> 122)"

definition isNumber :: "char \<Rightarrow> bool" where
  "isNumber c = (48 \<le> (of_char c :: nat) \<and> (of_char c :: nat) \<le> 57)"

definition specialChars :: string where
  "specialChars = ''!@#$%^&*(),.?'' @ [CHR 0x22] @ '':{}|<>''"

definition isSpecial :: "char \<Rightarrow> bool" where
  "isSpecial c = (c \<in> set specialChars)"

definition checkPasswordStrength :: "string \<Rightarrow> strength_report" where
  "checkPasswordStrength password' =
     (let reqs = \<lparr>minLength = (length password' \<ge> 8),
                  hasUppercase = list_ex isUppercase password',
                  hasLowercase = list_ex isLowercase password',
                  hasNumber = list_ex isNumber password',
                  hasSpecial = list_ex isSpecial password'\<rparr>;
          metCount = length (filter id
            [minLength reqs, hasUppercase reqs, hasLowercase reqs, hasNumber reqs, hasSpecial reqs]);
          strength' = (if metCount \<le> 2 then ''weak''
                       else if metCount \<le> 4 then ''medium'' else ''strong'')
      in \<lparr>requirements = reqs, strength = strength', allMet = (metCount = 5), score = metCount\<rparr>)"

subsection \<open>The error categories\<close>

text \<open>
  The code tells its failures apart by their messages; the names below are the
  categories under which the specification lists them.
\<close>

definition AccountNotFound :: string where
  "AccountNotFound = ''No account found with this email address.''"

definition InvalidCredentials :: string where
  "InvalidCredentials = ''Invalid email or password. Please try again.''"

definition NoActiveRequest :: string where
  "NoActiveRequest = ''Invalid or expired reset link.''"

definition TokenMismatch :: string where
  "TokenMismatch = ''Invalid reset link.''"

definition Expired :: string where
  "Expired = ''Reset link has expired. Please request a new one.''"


definition NoEnterpriseMatch :: string where
  "NoEnterpriseMatch = ''No enterprise users found for this domain.''"

subsection \<open>The seed list around its fourth user\<close>

definition seed_pre :: "user list" where
  "seed_pre = take 3 DEMO_USERS"

definition seed_user :: user where
  "seed_user = DEMO_USERS ! 3"

definition seed_post :: "user list" where
  "seed_post = drop 4 DEMO_USERS"

subsection \<open>A state with a pending reset request\<close>

definition pending_token :: reset_data where
  "pending_token = \<lparr>reset_data.email = ''user@example.com'', token = ''reset_abc0'',
     reset_data.expiresAt = 1800000\<rparr>"

definition pending :: state where
  "pending = fresh\<lparr>nexus_reset_token := Some pending_token\<rparr>"

subsection \<open>The view of the fourth seed user\<close>

definition emily :: user_view where
  "emily = \<lparr>user_view.email = ''user@example.com'', role = ''Attendee'', type = ''normal'',
     name = ''Emily Davis''\<rparr>"

subsection \<open>A state whose token names an email that no user has\<close>


subsection \<open>The states after one reset and after a second one\<close>



section \<open>Properties\<close>

subsection \<open>Searching a list\<close>

lemma findIndex_ge: "- 1 \<le> findIndex P xs"
  by (induction xs) (auto simp: Let_def)

lemma findIndex_none: "(findIndex P xs = - 1) = (\<forall>x\<in>set xs. \<not> P x)"
proof (induction xs)
  case Nil
  show ?case by simp
next
  case (Cons x xs)
  have "- 1 \<le> findIndex P xs" by (rule findIndex_ge)
  with Cons show ?case by (auto simp: Let_def)
qed

lemma findIndex_first:
  "xs = pre @ x # post \<Longrightarrow> P x \<Longrightarrow> \<forall>y\<in>set pre. \<not> P y \<Longrightarrow> findIndex P xs = int (length pre)"
proof (induction pre arbitrary: xs)
  case Nil
  then show ?case by simp
next
  case (Cons a pre)
  then show ?case by (auto simp: Let_def)
qed

lemma find_first:
  "xs = pre @ x # post \<Longrightarrow> P x \<Longrightarrow> \<forall>y\<in>set pre. \<not> P y \<Longrightarrow> find P xs = Some x"
  by (induction pre arbitrary: xs) auto

subsection \<open>Password strength\<close>

text \<open>The three ranges of the regular expressions, as the alphabets they stand for.\<close>

lemma isUppercase_iff: "isUppercase c = (c \<in> set ''ABCDEFGHIJKLMNOPQRSTUVWXYZ'')"
  by (cases c) (simp add: isUppercase_def)

lemma isLowercase_iff: "isLowercase c = (c \<in> set ''abcdefghijklmnopqrstuvwxyz'')"
  by (cases c) (simp add: isLowercase_def)

lemma isNumber_iff: "isNumber c = (c \<in> set ''0123456789'')"
  by (cases c) (simp add: isNumber_def)

lemma score_count:
  "score (checkPasswordStrength s) =
     of_bool (8 \<le> length s) + of_bool (\<exists>c\<in>set s. isUppercase c)
     + of_bool (\<exists>c\<in>set s. isLowercase c) + of_bool (\<exists>c\<in>set s. isNumber c)
     + of_bool (\<exists>c\<in>set s. isSpecial c)"
  by (simp add: checkPasswordStrength_def Let_def list_ex_iff of_bool_def)

lemma strength_label:
  "(strength (checkPasswordStrength s) = ''weak'') = (score (checkPasswordStrength s) \<le> 2)
   \<and> (strength (checkPasswordStrength s) = ''medium'') =
       (score (checkPasswordStrength s) = 3 \<or> score (checkPasswordStrength s) = 4)
   \<and> (strength (checkPasswordStrength s) = ''strong'') = (score (checkPasswordStrength s) = 5)
   \<and> allMet (checkPasswordStrength s) = (score (checkPasswordStrength s) = 5)"
  by (simp add: checkPasswordStrength_def Let_def)

lemma strength_empty:
  "score (checkPasswordStrength '''') = 0 \<and> strength (checkPasswordStrength '''') = ''weak''"
  by (simp add: checkPasswordStrength_def Let_def)

lemma strength_Abcdef1:
  "score (checkPasswordStrength ''Abcdef1!'') = 5
   \<and> strength (checkPasswordStrength ''Abcdef1!'') = ''strong''"
  by (simp add: checkPasswordStrength_def Let_def isUppercase_def isLowercase_def isNumber_def
      isSpecial_def specialChars_def)

text \<open>
  C7. For every string \<open>s\<close>, the score of \<open>checkPasswordStrength s\<close> is the number of the
  five requirements that \<open>s\<close> meets: at least 8 code units, an uppercase letter \<open>A\<close> to
  \<open>Z\<close>, a lowercase letter \<open>a\<close> to \<open>z\<close>, a digit, and one of the twenty punctuation
  marks of the pattern. The label is \<open>weak\<close> exactly for a score of at most 2, \<open>medium\<close>
  exactly for 3 or 4, \<open>strong\<close> exactly for 5, and \<open>allMet\<close> holds exactly for 5. The
  empty string scores 0 and is weak; \<open>Abcdef1!\<close> scores 5 and is strong.
\<close>

theorem checkPasswordStrength_spec:
  "score (checkPasswordStrength s) =
     of_bool (8 \<le> length s)
     + of_bool (\<exists>c\<in>set s. c \<in> set ''ABCDEFGHIJKLMNOPQRSTUVWXYZ'')
     + of_bool (\<exists>c\<in>set s. c \<in> set ''abcdefghijklmnopqrstuvwxyz'')
     + of_bool (\<exists>c\<in>set s. c \<in> set ''0123456789'')
     + of_bool (\<exists>c\<in>set s. c \<in> set (''!@#$%^&*(),.?'' @ [CHR 0x22] @ '':{}|<>''))
   \<and> (strength (checkPasswordStrength s) = ''weak'') = (score (checkPasswordStrength s) \<le> 2)
   \<and> (strength (checkPasswordStrength s) = ''medium'') =
       (score (checkPasswordStrength s) = 3 \<or> score (checkPasswordStrength s) = 4)
   \<and> (strength (checkPasswordStrength s) = ''strong'') = (score (checkPasswordStrength s) = 5)
   \<and> allMet (checkPasswordStrength s) = (score (checkPasswordStrength s) = 5)
   \<and> score (checkPasswordStrength '''') = 0
   \<and> strength (checkPasswordStrength '''') = ''weak''
   \<and> score (checkPasswordStrength ''Abcdef1!'') = 5
   \<and> strength (checkPasswordStrength ''Abcdef1!'') = ''strong''"
proof -
  have "score (checkPasswordStrength s) =
     of_bool (8 \<le> length s)
     + of_bool (\<exists>c\<in>set s. c \<in> set ''ABCDEFGHIJKLMNOPQRSTUVWXYZ'')
     + of_bool (\<exists>c\<in>set s. c \<in> set ''abcdefghijklmnopqrstuvwxyz'')
     + of_bool (\<exists>c\<in>set s. c \<in> set ''0123456789'')
     + of_bool (\<exists>c\<in>set s. c \<in> set (''!@#$%^&*(),.?'' @ [CHR 0x22] @ '':{}|<>''))"
    unfolding score_count isUppercase_iff isLowercase_iff isNumber_iff isSpecial_def
      specialChars_def ..
  with strength_label [of s] strength_empty strength_Abcdef1 show ?thesis
    by blast
qed

theorem checkPasswordStrength_spec_witness:
  "score (checkPasswordStrength ''Passw0rd'') = 4
   \<and> strength (checkPasswordStrength ''Passw0rd'') = ''medium''
   \<and> \<not> allMet (checkPasswordStrength ''Passw0rd'')"
proof -
  have "score (checkPasswordStrength ''Passw0rd'') = 4"
    using checkPasswordStrength_spec [of "''Passw0rd''"] by simp
  with checkPasswordStrength_spec [of "''Passw0rd''"] show ?thesis
    by simp
qed

subsection \<open>The seed list\<close>

lemma find_distinct:
  "distinct (map f xs) \<Longrightarrow> u \<in> set xs \<Longrightarrow> find (\<lambda>x. f x = f u) xs = Some u"
  by (induction xs) (auto simp: image_iff)

lemma lower_seed:
  "map (\<lambda>u. toLowerCase (user_view.email u)) DEMO_USERS =
     [''superadmin@intuvia.com'', ''admin@intuvia.com'', ''viewer@intuvia.com'',
      ''user@example.com'', ''organizer@example.com'']"
  by code_simp

lemma lower_seed_distinct: "distinct (map (\<lambda>u. toLowerCase (user_view.email u)) DEMO_USERS)"
  unfolding lower_seed by simp

lemma getUsers_fresh: "getUsers fresh = DEMO_USERS"
  by (simp add: getUsers_def fresh_def)

subsection \<open>Login with email and password\<close>

lemma validateLogin_state: "snd (validateLogin e p st) = st"
  by (simp add: validateLogin_def Let_def split: option.splits)

lemma validateLogin_found:
  "find (\<lambda>u. toLowerCase (user_view.email u) = toLowerCase e) (getUsers st) = Some u \<Longrightarrow>
   validateLogin e p st =
     (if password u = p then Success (sanitize u) else Failure InvalidCredentials, st)"
  by (simp add: validateLogin_def Let_def sanitize_def InvalidCredentials_def)

lemma validateLogin_absent:
  "find (\<lambda>u. toLowerCase (user_view.email u) = toLowerCase e) (getUsers st) = None \<Longrightarrow>
   validateLogin e p st = (Failure AccountNotFound, st)"
  by (simp add: validateLogin_def Let_def AccountNotFound_def)

text \<open>
  C1. For every email and password, \<open>validateLogin\<close> fails with \<open>AccountNotFound\<close>
  when no stored user's email equals the given one after lower-casing both; when there is
  such a user, the first of them in store order decides: the login fails with
  \<open>InvalidCredentials\<close> when its stored password is not the given string, and otherwise
  succeeds with the view of its email, role, type and name. The view's type has no
  password field. The store is left as it was, so the same call gives the same answer
  again.
\<close>

theorem validateLogin_spec:
  "((\<forall>x\<in>set (getUsers st). toLowerCase (user_view.email x) \<noteq> toLowerCase e) \<longrightarrow>
      validateLogin e p st = (Failure AccountNotFound, st))
   \<and> (getUsers st = pre @ u # post
        \<and> (\<forall>x\<in>set pre. toLowerCase (user_view.email x) \<noteq> toLowerCase e)
        \<and> toLowerCase (user_view.email u) = toLowerCase e \<longrightarrow>
        (password u \<noteq> p \<longrightarrow> validateLogin e p st = (Failure InvalidCredentials, st))
        \<and> (password u = p \<longrightarrow>
             validateLogin e p st =
               (Success \<lparr>user_view.email = user_view.email u, role = role u, type = type u,
                  name = name u\<rparr>, st)))
   \<and> validateLogin e p (snd (validateLogin e p st)) = validateLogin e p st"
proof (intro conjI impI)
  assume "\<forall>x\<in>set (getUsers st). toLowerCase (user_view.email x) \<noteq> toLowerCase e"
  then have "find (\<lambda>u. toLowerCase (user_view.email u) = toLowerCase e) (getUsers st) = None"
    by (simp add: find_None_iff)
  then show "validateLogin e p st = (Failure AccountNotFound, st)"
    by (rule validateLogin_absent)
next
  assume a: "getUsers st = pre @ u # post
        \<and> (\<forall>x\<in>set pre. toLowerCase (user_view.email x) \<noteq> toLowerCase e)
        \<and> toLowerCase (user_view.email u) = toLowerCase e"
    and b: "password u \<noteq> p"
  from a have "find (\<lambda>u. toLowerCase (user_view.email u) = toLowerCase e) (getUsers st) = Some u"
    by (intro find_first [where pre = pre and post = post]) auto
  from validateLogin_found [OF this, of p] b
  show "validateLogin e p st = (Failure InvalidCredentials, st)" by simp
next
  assume a: "getUsers st = pre @ u # post
        \<and> (\<forall>x\<in>set pre. toLowerCase (user_view.email x) \<noteq> toLowerCase e)
        \<and> toLowerCase (user_view.email u) = toLowerCase e"
    and b: "password u = p"
  from a have "find (\<lambda>u. toLowerCase (user_view.email u) = toLowerCase e) (getUsers st) = Some u"
    by (intro find_first [where pre = pre and post = post]) auto
  from validateLogin_found [OF this, of p] b
  show "validateLogin e p st =
               (Success \<lparr>user_view.email = user_view.email u, role = role u, type = type u,
                  name = name u\<rparr>, st)" by (simp add: sanitize_def)
next
  show "validateLogin e p (snd (validateLogin e p st)) = validateLogin e p st"
    by (simp add: validateLogin_state)
qed

lemma lower_USER: "toLowerCase ''USER@example.com'' = ''user@example.com''"
  by code_simp
lemma lower_nobody: "toLowerCase ''nobody@example.com'' = ''nobody@example.com''"
  by code_simp

lemma seed_split: "DEMO_USERS = seed_pre @ seed_user # seed_post"
  by (simp add: seed_pre_def seed_user_def seed_post_def DEMO_USERS_def)

lemma seed_pre_lower:
  "map (\<lambda>u. toLowerCase (user_view.email u)) seed_pre =
     [''superadmin@intuvia.com'', ''admin@intuvia.com'', ''viewer@intuvia.com'']"
  by code_simp

lemma seed_user_eq:
  "seed_user = \<lparr>user_view.email = ''user@example.com'', role = ''Attendee'', type = ''normal'',
       name = ''Emily Davis'', password = ''User@123''\<rparr>"
  by (simp add: seed_user_def DEMO_USERS_def)

lemma seed_user_lower: "toLowerCase (user_view.email seed_user) = ''user@example.com''"
  by code_simp

lemma seed_pre_miss:
  "\<forall>x\<in>set seed_pre. toLowerCase (user_view.email x) \<noteq> ''user@example.com''"
proof -
  have "''user@example.com'' \<notin> set (map (\<lambda>u. toLowerCase (user_view.email u)) seed_pre)"
    unfolding seed_pre_lower by simp
  then show ?thesis by (auto simp: image_iff)
qed

theorem validateLogin_spec_witness:
  "validateLogin ''nobody@example.com'' ''User@123'' fresh = (Failure AccountNotFound, fresh)
   \<and> validateLogin ''USER@example.com'' ''user@123'' fresh = (Failure InvalidCredentials, fresh)
   \<and> validateLogin ''USER@example.com'' ''User@123'' fresh =
       (Success \<lparr>user_view.email = ''user@example.com'', role = ''Attendee'', type = ''normal'',
          name = ''Emily Davis''\<rparr>, fresh)"
proof -
  have "''nobody@example.com'' \<notin> set (map (\<lambda>u. toLowerCase (user_view.email u)) DEMO_USERS)"
    unfolding lower_seed by simp
  then have n: "\<forall>x\<in>set (getUsers fresh).
      toLowerCase (user_view.email x) \<noteq> toLowerCase ''nobody@example.com''"
    by (auto simp: getUsers_fresh lower_nobody image_iff)
  have d: "getUsers fresh = seed_pre @ seed_user # seed_post
      \<and> (\<forall>x\<in>set seed_pre. toLowerCase (user_view.email x) \<noteq> toLowerCase ''USER@example.com'')
      \<and> toLowerCase (user_view.email seed_user) = toLowerCase ''USER@example.com''"
    using seed_split seed_pre_miss seed_user_lower by (simp add: getUsers_fresh lower_USER)
  have p2: "password seed_user \<noteq> ''user@123''" and p3: "password seed_user = ''User@123''"
    by (simp_all add: seed_user_eq)
  from validateLogin_spec [of fresh "''nobody@example.com''" "''User@123''"] n
  have 1: "validateLogin ''nobody@example.com'' ''User@123'' fresh = (Failure AccountNotFound, fresh)"
    by blast
  from validateLogin_spec [of fresh "''USER@example.com''" "''user@123''" seed_pre seed_user seed_post] d p2
  have 2: "validateLogin ''USER@example.com'' ''user@123'' fresh = (Failure InvalidCredentials, fresh)"
    by blast
  from validateLogin_spec [of fresh "''USER@example.com''" "''User@123''" seed_pre seed_user seed_post] d p3
  have "validateLogin ''USER@example.com'' ''User@123'' fresh =
       (Success \<lparr>user_view.email = user_view.email seed_user, role = role seed_user,
          type = type seed_user, name = name seed_user\<rparr>, fresh)"
    by blast
  then have 3: "validateLogin ''USER@example.com'' ''User@123'' fresh =
       (Success \<lparr>user_view.email = ''user@example.com'', role = ''Attendee'', type = ''normal'',
          name = ''Emily Davis''\<rparr>, fresh)"
    by (simp add: seed_user_eq)
  from 1 2 3 show ?thesis by blast
qed


subsection \<open>Reset tokens\<close>

lemma validateResetToken_empty:
  "nexus_reset_token st = None \<Longrightarrow> validateResetToken now t st = (Failure NoActiveRequest, st)"
  by (simp add: validateResetToken_def NoActiveRequest_def)

lemma validateResetToken_mismatch:
  "nexus_reset_token st = Some rd \<Longrightarrow> t \<noteq> token rd \<Longrightarrow>
   validateResetToken now t st = (Failure TokenMismatch, st)"
  by (simp add: validateResetToken_def TokenMismatch_def)

lemma validateResetToken_expired:
  "nexus_reset_token st = Some rd \<Longrightarrow> t = token rd \<Longrightarrow> reset_data.expiresAt rd < now \<Longrightarrow>
   validateResetToken now t st = (Failure Expired, st\<lparr>nexus_reset_token := None\<rparr>)"
  by (simp add: validateResetToken_def Expired_def)

lemma validateResetToken_valid:
  "nexus_reset_token st = Some rd \<Longrightarrow> t = token rd \<Longrightarrow> \<not> reset_data.expiresAt rd < now \<Longrightarrow>
   validateResetToken now t st = (Success (reset_data.email rd), st)"
  by (simp add: validateResetToken_def)

text \<open>
  C3. For every token string and every state, \<open>validateResetToken\<close> fails with
  \<open>NoActiveRequest\<close> when the token slot is empty; fails with \<open>TokenMismatch\<close> when the
  given token is not the stored one, and leaves the state as it is; when the token is the
  stored one and the stored expiry is before the current time, it removes the slot and
  fails with \<open>Expired\<close>; otherwise it succeeds with the stored email and leaves the state
  as it is, so that the same call on the resulting state gives the same success.
\<close>

theorem validateResetToken_spec:
  "(nexus_reset_token st = None \<longrightarrow>
      validateResetToken now t st = (Failure NoActiveRequest, st))
   \<and> (nexus_reset_token st = Some rd \<and> t \<noteq> token rd \<longrightarrow>
      validateResetToken now t st = (Failure TokenMismatch, st))
   \<and> (nexus_reset_token st = Some rd \<and> t = token rd \<and> reset_data.expiresAt rd < now \<longrightarrow>
      validateResetToken now t st = (Failure Expired, st\<lparr>nexus_reset_token := None\<rparr>))
   \<and> (nexus_reset_token st = Some rd \<and> t = token rd \<and> \<not> reset_data.expiresAt rd < now \<longrightarrow>
      validateResetToken now t st = (Success (reset_data.email rd), st)
      \<and> validateResetToken now t (snd (validateResetToken now t st)) =
          (Success (reset_data.email rd), st))"
  using validateResetToken_empty [of st now t] validateResetToken_mismatch [of st rd t now]
    validateResetToken_expired [of st rd t now] validateResetToken_valid [of st rd t now]
  by simp

theorem validateResetToken_spec_witness:
  "validateResetToken 0 ''reset_abc0'' fresh = (Failure NoActiveRequest, fresh)
   \<and> validateResetToken 5 ''reset_zzz0'' pending = (Failure TokenMismatch, pending)
   \<and> validateResetToken 1800001 ''reset_abc0'' pending = (Failure Expired, fresh)
   \<and> validateResetToken 1800000 ''reset_abc0'' pending = (Success ''user@example.com'', pending)"
proof -
  have s: "nexus_reset_token pending = Some pending_token"
    by (simp add: pending_def)
  have n: "nexus_reset_token fresh = None"
    by (simp add: fresh_def)
  have f: "pending\<lparr>nexus_reset_token := None\<rparr> = fresh"
    by (simp add: pending_def fresh_def)
  have 1: "validateResetToken 0 ''reset_abc0'' fresh = (Failure NoActiveRequest, fresh)"
    using validateResetToken_spec [of fresh 0 "''reset_abc0''"] n by simp
  have 2: "validateResetToken 5 ''reset_zzz0'' pending = (Failure TokenMismatch, pending)"
    using validateResetToken_spec [of pending 5 "''reset_zzz0''" pending_token] s
    by (simp add: pending_token_def)
  have 3: "validateResetToken 1800001 ''reset_abc0'' pending = (Failure Expired, fresh)"
    using validateResetToken_spec [of pending 1800001 "''reset_abc0''" pending_token] s f
    by (simp add: pending_token_def)
  have 4: "validateResetToken 1800000 ''reset_abc0'' pending = (Success ''user@example.com'', pending)"
    using validateResetToken_spec [of pending 1800000 "''reset_abc0''" pending_token] s
    by (simp add: pending_token_def)
  from 1 2 3 4 show ?thesis by blast
qed

subsection \<open>Sessions\<close>

lemma getSession_fresh_session:
  "\<not> tNow + 24 * 60 * 60 * 1000 < now \<Longrightarrow>
   getSession now (createSession tLogin tNow u st) =
     (Some \<lparr>user_view.email = user_view.email u, role = role u, type = type u, name = name u,
        loginTime = tLogin, session.expiresAt = tNow + 86400000\<rparr>,
      createSession tLogin tNow u st)"
  by (simp add: getSession_def createSession_def)

lemma getSession_expired:
  "nexus_ai_session st = Some s \<Longrightarrow> session.expiresAt s < now \<Longrightarrow>
   getSession now st = (None, st\<lparr>nexus_ai_session := None\<rparr>)"
  by (simp add: getSession_def logout_def)

lemma getSession_live:
  "nexus_ai_session st = Some s \<Longrightarrow> \<not> session.expiresAt s < now \<Longrightarrow>
   getSession now st = (Some s, st)"
  by (simp add: getSession_def)

lemma validateResetToken_session:
  "nexus_ai_session (snd (validateResetToken now t st)) = nexus_ai_session st"
  by (simp add: validateResetToken_def split: option.splits)

lemma validateResetToken_users:
  "nexus_ai_users (snd (validateResetToken now t st)) = nexus_ai_users st
   \<and> demo_users (snd (validateResetToken now t st)) = demo_users st"
  by (simp add: validateResetToken_def split: option.splits)

lemma resetPassword_session:
  "nexus_ai_session (snd (resetPassword now t q st)) = nexus_ai_session st"
proof (cases "validateResetToken now t st")
  case (Pair r st1)
  with validateResetToken_session [of now t st] have s: "nexus_ai_session st1 = nexus_ai_session st"
    by simp
  show ?thesis
  proof (cases r)
    case (Failure e)
    with Pair s show ?thesis by (simp add: resetPassword_def)
  next
    case (Success em)
    with Pair s show ?thesis by (simp add: resetPassword_def Let_def saveUsers_def)
  qed
qed

lemma others_keep_session:
  "nexus_ai_session (snd (validateLogin e p st)) = nexus_ai_session st
   \<and> nexus_ai_session (snd (handleForgotPassword r tTok tNow e st)) = nexus_ai_session st
   \<and> nexus_ai_session (snd (loginWithSSO d st)) = nexus_ai_session st
   \<and> nexus_ai_session (snd (loginWithGoogle h st)) = nexus_ai_session st
   \<and> nexus_ai_session (initAuth st) = nexus_ai_session st
   \<and> nexus_ai_session (saveUsers us st) = nexus_ai_session st"
  by (simp add: validateLogin_def handleForgotPassword_def loginWithSSO_def loginWithGoogle_def
      initAuth_def saveUsers_def Let_def split: option.splits list.splits)

text \<open>
  C4. For every sanitized user \<open>u\<close>, \<open>getSession\<close> on the state that \<open>createSession u\<close>
  leaves, asked at any time up to the expiry and so also at once, returns the record with
  \<open>u\<close>'s email, role, type and name, the login time, and an expiry 24 hours
  (86400000 ms) after the clock reading of the creation; the state stays as it is. For
  every stored session whose expiry is before the current time, \<open>getSession\<close> removes the
  session slot and returns no session. Nothing else acts on the expiry: a session that is
  not expired is returned and kept, and login, reset request, token check, password reset,
  the two simulated logins, \<open>initAuth\<close> and \<open>saveUsers\<close> leave the session slot as it is
  (\<open>logout\<close> removes it on request, whatever its expiry).
\<close>

theorem session_spec:
  "(\<not> tNow + 24 * 60 * 60 * 1000 < now \<longrightarrow>
      getSession now (createSession tLogin tNow u st) =
        (Some \<lparr>user_view.email = user_view.email u, role = role u, type = type u, name = name u,
           loginTime = tLogin, session.expiresAt = tNow + 86400000\<rparr>,
         createSession tLogin tNow u st))
   \<and> (nexus_ai_session st = Some s \<and> session.expiresAt s < now \<longrightarrow>
        getSession now st = (None, st\<lparr>nexus_ai_session := None\<rparr>))
   \<and> (nexus_ai_session st = Some s \<and> \<not> session.expiresAt s < now \<longrightarrow>
        getSession now st = (Some s, st))
   \<and> nexus_ai_session (snd (validateLogin e p st)) = nexus_ai_session st
   \<and> nexus_ai_session (snd (handleForgotPassword r tTok tNow e st)) = nexus_ai_session st
   \<and> nexus_ai_session (snd (validateResetToken now t st)) = nexus_ai_session st
   \<and> nexus_ai_session (snd (resetPassword now t q st)) = nexus_ai_session st
   \<and> nexus_ai_session (snd (loginWithSSO d st)) = nexus_ai_session st
   \<and> nexus_ai_session (snd (loginWithGoogle h st)) = nexus_ai_session st
   \<and> nexus_ai_session (initAuth st) = nexus_ai_session st
   \<and> nexus_ai_session (saveUsers us st) = nexus_ai_session st"
  using getSession_fresh_session [of tNow now tLogin u st] getSession_expired [of st s now]
    getSession_live [of st s now] validateResetToken_session [of now t st]
    resetPassword_session [of now t q st] others_keep_session [of e p st r tTok tNow d h us]
  by blast

theorem session_spec_witness:
  "getSession 1000 (createSession 999 1000 emily fresh) =
     (Some \<lparr>user_view.email = ''user@example.com'', role = ''Attendee'', type = ''normal'',
        name = ''Emily Davis'', loginTime = 999, session.expiresAt = 86401000\<rparr>,
      createSession 999 1000 emily fresh)
   \<and> getSession 86401000 (createSession 999 1000 emily fresh) =
     (Some \<lparr>user_view.email = ''user@example.com'', role = ''Attendee'', type = ''normal'',
        name = ''Emily Davis'', loginTime = 999, session.expiresAt = 86401000\<rparr>,
      createSession 999 1000 emily fresh)
   \<and> getSession 86401001 (createSession 999 1000 emily fresh) = (None, fresh)"
proof -
  let ?s = "\<lparr>user_view.email = ''user@example.com'', role = ''Attendee'', type = ''normal'',
        name = ''Emily Davis'', loginTime = 999, session.expiresAt = 86401000\<rparr>"
  let ?st = "createSession 999 1000 emily fresh"
  have a: "nexus_ai_session ?st = Some ?s \<and> session.expiresAt ?s < 86401001"
    by (simp add: createSession_def emily_def)
  have b: "?st\<lparr>nexus_ai_session := None\<rparr> = fresh"
    by (simp add: createSession_def fresh_def)
  have 1: "getSession 1000 ?st = (Some ?s, ?st)"
    using session_spec [of 1000 1000 999 emily fresh] by (simp add: emily_def)
  have 2: "getSession 86401000 ?st = (Some ?s, ?st)"
    using session_spec [of 1000 86401000 999 emily fresh] by (simp add: emily_def)
  have 3: "getSession 86401001 ?st = (None, fresh)"
    using session_spec [of _ 86401001 _ _ ?st ?s] a b by simp
  from 1 2 3 show ?thesis by blast
qed

subsection \<open>Requesting a reset\<close>

lemma handleForgotPassword_found:
  "find (\<lambda>u. toLowerCase (user_view.email u) = toLowerCase e) (getUsers st) = Some u \<Longrightarrow>
   handleForgotPassword r tTok tNow e st =
     (Success \<lparr>message = ''Password reset link sent to your email.'',
        resetUrl = ''reset-password.html?token='' @ generateResetToken r tTok\<rparr>,
      st\<lparr>nexus_reset_token := Some \<lparr>reset_data.email = user_view.email u,
        token = generateResetToken r tTok, reset_data.expiresAt = tNow + 1800000\<rparr>\<rparr>)"
  by (simp add: handleForgotPassword_def Let_def)

lemma handleForgotPassword_absent:
  "find (\<lambda>u. toLowerCase (user_view.email u) = toLowerCase e) (getUsers st) = None \<Longrightarrow>
   handleForgotPassword r tTok tNow e st = (Failure AccountNotFound, st)"
  by (simp add: handleForgotPassword_def Let_def AccountNotFound_def)

lemma handleForgotPassword_success:
  "handleForgotPassword r tTok tNow e st = (Success rep, st') \<Longrightarrow>
   resetUrl rep = ''reset-password.html?token='' @ generateResetToken r tTok
   \<and> (\<exists>rd. nexus_reset_token st' = Some rd \<and> token rd = generateResetToken r tTok
          \<and> reset_data.expiresAt rd = tNow + 1800000)
   \<and> getUsers st' = getUsers st"
  by (auto simp: handleForgotPassword_def Let_def getUsers_def split: option.splits)

lemma seed_find_user:
  "getUsers st = DEMO_USERS \<Longrightarrow>
   find (\<lambda>u. toLowerCase (user_view.email u) = toLowerCase ''user@example.com'') (getUsers st)
     = Some seed_user"
proof -
  assume g: "getUsers st = DEMO_USERS"
  have l: "toLowerCase ''user@example.com'' = ''user@example.com''" by code_simp
  show ?thesis
    unfolding g l
    by (rule find_first [OF seed_split seed_user_lower seed_pre_miss])
qed

text \<open>
  C5. The token slot holds at most one record. For every two successful calls of
  \<open>handleForgotPassword\<close>, the second on the state the first leaves, whose tokens
  differ: each reply carries its token in the reset URL, the slot then holds the second
  token, and \<open>validateResetToken\<close> of the first token fails with \<open>TokenMismatch\<close>,
  at every clock reading.
\<close>

theorem single_token_slot:
  "handleForgotPassword r1 a1 b1 e1 st = (Success rep1, st1)
   \<and> handleForgotPassword r2 a2 b2 e2 st1 = (Success rep2, st2)
   \<and> generateResetToken r1 a1 \<noteq> generateResetToken r2 a2 \<longrightarrow>
     resetUrl rep1 = ''reset-password.html?token='' @ generateResetToken r1 a1
     \<and> resetUrl rep2 = ''reset-password.html?token='' @ generateResetToken r2 a2
     \<and> map_option token (nexus_reset_token st2) = Some (generateResetToken r2 a2)
     \<and> validateResetToken now (generateResetToken r1 a1) st2 = (Failure TokenMismatch, st2)"
proof (intro impI, elim conjE)
  assume 1: "handleForgotPassword r1 a1 b1 e1 st = (Success rep1, st1)"
    and 2: "handleForgotPassword r2 a2 b2 e2 st1 = (Success rep2, st2)"
    and d: "generateResetToken r1 a1 \<noteq> generateResetToken r2 a2"
  from handleForgotPassword_success [OF 1]
  have u1: "resetUrl rep1 = ''reset-password.html?token='' @ generateResetToken r1 a1" by simp
  from handleForgotPassword_success [OF 2] obtain rd where
    u2: "resetUrl rep2 = ''reset-password.html?token='' @ generateResetToken r2 a2"
    and s: "nexus_reset_token st2 = Some rd" and t: "token rd = generateResetToken r2 a2"
    by blast
  from d t have "generateResetToken r1 a1 \<noteq> token rd" by simp
  from validateResetToken_mismatch [OF s this]
  have "validateResetToken now (generateResetToken r1 a1) st2 = (Failure TokenMismatch, st2)" .
  with u1 u2 s t show "resetUrl rep1 = ''reset-password.html?token='' @ generateResetToken r1 a1
     \<and> resetUrl rep2 = ''reset-password.html?token='' @ generateResetToken r2 a2
     \<and> map_option token (nexus_reset_token st2) = Some (generateResetToken r2 a2)
     \<and> validateResetToken now (generateResetToken r1 a1) st2 = (Failure TokenMismatch, st2)"
    by simp
qed

theorem single_token_slot_witness:
  "validateResetToken 7 (generateResetToken ''abc'' 5)
     (snd (handleForgotPassword ''abd'' 6 6 ''user@example.com''
       (snd (handleForgotPassword ''abc'' 5 5 ''user@example.com'' fresh))))
   = (Failure TokenMismatch,
      snd (handleForgotPassword ''abd'' 6 6 ''user@example.com''
       (snd (handleForgotPassword ''abc'' 5 5 ''user@example.com'' fresh))))"
proof -
  obtain rep1 st1 where 1: "handleForgotPassword ''abc'' 5 5 ''user@example.com'' fresh
      = (Success rep1, st1)"
    using handleForgotPassword_found [OF seed_find_user [OF getUsers_fresh]] by blast
  from handleForgotPassword_success [OF 1] have "getUsers st1 = DEMO_USERS"
    by (simp add: getUsers_fresh)
  then obtain rep2 st2 where 2: "handleForgotPassword ''abd'' 6 6 ''user@example.com'' st1
      = (Success rep2, st2)"
    using handleForgotPassword_found [OF seed_find_user] by blast
  have d: "generateResetToken ''abc'' 5 \<noteq> generateResetToken ''abd'' 6"
    by (simp add: generateResetToken_def)
  from single_token_slot [of "''abc''" 5 5 "''user@example.com''" fresh rep1 st1
      "''abd''" 6 6 "''user@example.com''" rep2 st2 7] 1 2 d
  have "validateResetToken 7 (generateResetToken ''abc'' 5) st2 = (Failure TokenMismatch, st2)"
    by blast
  with 1 2 show ?thesis by simp
qed

subsection \<open>Enterprise login\<close>

lemma endsWith_iff: "endsWith s t = (\<exists>p. s = p @ t)"
proof
  assume "endsWith s t"
  then have "s = take (length s - length t) s @ t"
    by (simp add: endsWith_def) (metis append_take_drop_id)
  then show "\<exists>p. s = p @ t" ..
next
  assume "\<exists>p. s = p @ t"
  then show "endsWith s t" by (auto simp: endsWith_def)
qed

lemma filter_first:
  "xs = pre @ x # post \<Longrightarrow> P x \<Longrightarrow> \<forall>y\<in>set pre. \<not> P y \<Longrightarrow> filter P xs = x # filter P post"
  by (induction pre arbitrary: xs) auto

lemma loginWithSSO_none:
  "filter (\<lambda>u. type u = ''enterprise'' \<and> endsWith (user_view.email u) (CHR ''@'' # d))
     (getUsers st) = [] \<Longrightarrow>
   loginWithSSO d st = (Failure NoEnterpriseMatch, st)"
  by (simp add: loginWithSSO_def NoEnterpriseMatch_def)

lemma loginWithSSO_first:
  "filter (\<lambda>u. type u = ''enterprise'' \<and> endsWith (user_view.email u) (CHR ''@'' # d))
     (getUsers st) = u # rest \<Longrightarrow>
   loginWithSSO d st =
     (Success \<lparr>user_view.email = user_view.email u, role = role u, type = type u,
        name = name u\<rparr>, st)"
  by (simp add: loginWithSSO_def)

lemma loginWithSSO_state: "snd (loginWithSSO d st) = st"
  by (simp add: loginWithSSO_def split: list.splits)

lemma loginWithSSO_fails_iff:
  "(fst (loginWithSSO d st) = Failure NoEnterpriseMatch) =
     (\<forall>x\<in>set (getUsers st).
        \<not> (type x = ''enterprise'' \<and> (\<exists>p. user_view.email x = p @ CHR ''@'' # d)))"
proof -
  let ?P = "\<lambda>u. type u = ''enterprise'' \<and> endsWith (user_view.email u) (CHR ''@'' # d)"
  have "(fst (loginWithSSO d st) = Failure NoEnterpriseMatch) = (filter ?P (getUsers st) = [])"
    by (simp add: loginWithSSO_def NoEnterpriseMatch_def split: list.splits)
  also have "\<dots> = (\<forall>x\<in>set (getUsers st). \<not> ?P x)"
    by (simp add: filter_empty_conv)
  finally show ?thesis by (simp add: endsWith_iff)
qed

lemma seed_intuvia:
  "filter (\<lambda>u. type u = ''enterprise'' \<and> endsWith (user_view.email u) (CHR ''@'' # ''intuvia.com''))
     DEMO_USERS = take 3 DEMO_USERS"
  by (simp add: DEMO_USERS_def endsWith_def)

lemma seed_nomatch:
  "filter (\<lambda>u. type u = ''enterprise'' \<and> endsWith (user_view.email u) (CHR ''@'' # ''nomatch.com''))
     DEMO_USERS = []"
  by (simp add: DEMO_USERS_def endsWith_def)

text \<open>
  C6. For every domain string \<open>d\<close>, \<open>loginWithSSO d\<close> fails with \<open>NoEnterpriseMatch\<close>
  exactly when no stored user has the type \<open>enterprise\<close> and an email that ends in
  \<open>@\<close> followed by \<open>d\<close>; otherwise it succeeds with the view of the first such user in
  store order. The state is left as it is. On the seed list, \<open>intuvia.com\<close> gives the
  Super Admin and \<open>nomatch.com\<close> fails with \<open>NoEnterpriseMatch\<close>.
\<close>

theorem loginWithSSO_spec:
  "(fst (loginWithSSO d st) = Failure NoEnterpriseMatch) =
     (\<forall>x\<in>set (getUsers st).
        \<not> (type x = ''enterprise'' \<and> (\<exists>p. user_view.email x = p @ ''@'' @ d)))
   \<and> (getUsers st = pre @ u # post
        \<and> (\<forall>x\<in>set pre. \<not> (type x = ''enterprise'' \<and> (\<exists>p. user_view.email x = p @ ''@'' @ d)))
        \<and> type u = ''enterprise'' \<and> (\<exists>p. user_view.email u = p @ ''@'' @ d) \<longrightarrow>
        loginWithSSO d st =
          (Success \<lparr>user_view.email = user_view.email u, role = role u, type = type u,
             name = name u\<rparr>, st))
   \<and> snd (loginWithSSO d st) = st
   \<and> (getUsers st = DEMO_USERS \<longrightarrow>
        loginWithSSO ''intuvia.com'' st =
          (Success \<lparr>user_view.email = ''superadmin@intuvia.com'', role = ''Super Admin'',
             type = ''enterprise'', name = ''John Smith''\<rparr>, st)
        \<and> loginWithSSO ''nomatch.com'' st = (Failure NoEnterpriseMatch, st))"
proof (intro conjI impI)
  show "(fst (loginWithSSO d st) = Failure NoEnterpriseMatch) =
     (\<forall>x\<in>set (getUsers st).
        \<not> (type x = ''enterprise'' \<and> (\<exists>p. user_view.email x = p @ ''@'' @ d)))"
    using loginWithSSO_fails_iff [of d st] by simp
next
  assume a: "getUsers st = pre @ u # post
        \<and> (\<forall>x\<in>set pre. \<not> (type x = ''enterprise'' \<and> (\<exists>p. user_view.email x = p @ ''@'' @ d)))
        \<and> type u = ''enterprise'' \<and> (\<exists>p. user_view.email u = p @ ''@'' @ d)"
  let ?P = "\<lambda>u. type u = ''enterprise'' \<and> endsWith (user_view.email u) (CHR ''@'' # d)"
  from a have "?P u" and "\<forall>x\<in>set pre. \<not> ?P x"
    by (simp_all add: endsWith_iff)
  with a have "filter ?P (getUsers st) = u # filter ?P post"
    by (intro filter_first) simp_all
  then show "loginWithSSO d st =
          (Success \<lparr>user_view.email = user_view.email u, role = role u, type = type u,
             name = name u\<rparr>, st)"
    by (rule loginWithSSO_first)
next
  show "snd (loginWithSSO d st) = st" by (rule loginWithSSO_state)
next
  assume g: "getUsers st = DEMO_USERS"
  have "filter (\<lambda>u. type u = ''enterprise'' \<and> endsWith (user_view.email u) (CHR ''@'' # ''intuvia.com''))
     (getUsers st) = (DEMO_USERS ! 0) # tl (take 3 DEMO_USERS)"
    unfolding g seed_intuvia by (simp add: DEMO_USERS_def)
  from loginWithSSO_first [OF this]
  show "loginWithSSO ''intuvia.com'' st =
          (Success \<lparr>user_view.email = ''superadmin@intuvia.com'', role = ''Super Admin'',
             type = ''enterprise'', name = ''John Smith''\<rparr>, st)"
    by (simp add: DEMO_USERS_def)
next
  assume g: "getUsers st = DEMO_USERS"
  show "loginWithSSO ''nomatch.com'' st = (Failure NoEnterpriseMatch, st)"
    by (rule loginWithSSO_none) (simp add: g seed_nomatch)
qed

theorem loginWithSSO_spec_witness:
  "loginWithSSO ''intuvia.com'' fresh =
     (Success \<lparr>user_view.email = ''superadmin@intuvia.com'', role = ''Super Admin'',
        type = ''enterprise'', name = ''John Smith''\<rparr>, fresh)
   \<and> loginWithSSO ''nomatch.com'' fresh = (Failure NoEnterpriseMatch, fresh)
   \<and> loginWithSSO ''example.com'' fresh = (Failure NoEnterpriseMatch, fresh)
   \<and> loginWithSSO ''tuvia.com'' fresh = (Failure NoEnterpriseMatch, fresh)"
proof -
  have e: "\<forall>x\<in>set (getUsers fresh).
        \<not> (type x = ''enterprise'' \<and> (\<exists>p. user_view.email x = p @ ''@'' @ ''example.com''))"
    by (simp add: getUsers_fresh DEMO_USERS_def)
  have t: "\<forall>x\<in>set (getUsers fresh).
        \<not> (type x = ''enterprise'' \<and> (\<exists>p. user_view.email x = p @ ''@'' @ ''tuvia.com''))"
    using endsWith_iff [symmetric, of _ "''@tuvia.com''"]
    by (simp add: getUsers_fresh DEMO_USERS_def endsWith_def)
  from loginWithSSO_spec [of "''example.com''" fresh] e
  have 3: "loginWithSSO ''example.com'' fresh = (Failure NoEnterpriseMatch, fresh)"
    by (metis prod.collapse)
  from loginWithSSO_spec [of "''tuvia.com''" fresh] t
  have 4: "loginWithSSO ''tuvia.com'' fresh = (Failure NoEnterpriseMatch, fresh)"
    by (metis prod.collapse)
  from loginWithSSO_spec [of _ fresh] getUsers_fresh 3 4 show ?thesis
    by blast
qed

subsection \<open>Resetting a password\<close>

lemma findIndex_split:
  "findIndex P xs \<noteq> - 1 \<Longrightarrow>
   \<exists>pre x post. xs = pre @ x # post \<and> P x \<and> (\<forall>y\<in>set pre. \<not> P y)
     \<and> findIndex P xs = int (length pre)"
proof -
  assume "findIndex P xs \<noteq> - 1"
  then have "\<exists>x\<in>set xs. P x" by (simp add: findIndex_none)
  from split_list_first_prop [OF this]
  obtain pre x post where s: "xs = pre @ x # post" "P x" "\<forall>y\<in>set pre. \<not> P y"
    by blast
  from findIndex_first [OF s] s show ?thesis by blast
qed

lemma update_at_split:
  "(pre @ x # post)[nat (int (length pre)) := f ((pre @ x # post) ! nat (int (length pre)))]
     = pre @ f x # post"
  by simp


lemma validateResetToken_Success:
  "validateResetToken now t st = (Success em, st1) \<Longrightarrow>
   st1 = st \<and> (\<exists>rd. nexus_reset_token st = Some rd \<and> token rd = t
     \<and> \<not> reset_data.expiresAt rd < now \<and> reset_data.email rd = em)"
  by (auto simp: validateResetToken_def split: option.splits if_splits)


lemma resetPassword_update:
  assumes v: "validateResetToken now t st = (Success em, st)"
    and s: "getUsers st = pre @ u # post"
    and m: "toLowerCase (user_view.email u) = toLowerCase em"
    and f: "\<forall>x\<in>set pre. toLowerCase (user_view.email x) \<noteq> toLowerCase em"
  shows "fst (resetPassword now t q st) =
           Success ''Password changed successfully. Redirecting to login...''"
    and "nexus_ai_users (snd (resetPassword now t q st)) = Some (pre @ u\<lparr>password := q\<rparr> # post)"
    and "getUsers (snd (resetPassword now t q st)) = pre @ u\<lparr>password := q\<rparr> # post"
    and "nexus_reset_token (snd (resetPassword now t q st)) = None"
    and "nexus_ai_session (snd (resetPassword now t q st)) = nexus_ai_session st"
proof -
  let ?P = "\<lambda>u. toLowerCase (user_view.email u) = toLowerCase em"
  from f have "\<forall>x\<in>set pre. \<not> ?P x" by simp
  from findIndex_first [of "getUsers st" pre u post ?P, OF s m this]
  have i: "findIndex ?P (pre @ u # post) = int (length pre)" by (simp add: s)
  have n: "int (length pre) \<noteq> - 1" by simp
  have r: "resetPassword now t q st =
    (Success ''Password changed successfully. Redirecting to login...'',
     (saveUsers (pre @ u\<lparr>password := q\<rparr> # post)
        (if nexus_ai_users st = None then st\<lparr>demo_users := pre @ u\<lparr>password := q\<rparr> # post\<rparr> else st))
      \<lparr>nexus_reset_token := None\<rparr>)"
    unfolding resetPassword_def v s Let_def prod.case result.case i
    using n by (simp only: update_at_split if_False s)
  show "fst (resetPassword now t q st) =
           Success ''Password changed successfully. Redirecting to login...''"
    by (simp add: r)
  show "nexus_ai_users (snd (resetPassword now t q st)) = Some (pre @ u\<lparr>password := q\<rparr> # post)"
    by (simp add: r saveUsers_def)
  show "getUsers (snd (resetPassword now t q st)) = pre @ u\<lparr>password := q\<rparr> # post"
    by (simp add: r saveUsers_def getUsers_def)
  show "nexus_reset_token (snd (resetPassword now t q st)) = None"
    by (simp add: r)
  show "nexus_ai_session (snd (resetPassword now t q st)) = nexus_ai_session st"
    by (simp add: r saveUsers_def)
qed

lemma resetPassword_Success:
  assumes r: "resetPassword now t q st = (Success m, st')"
  shows "\<exists>rd pre u post. nexus_reset_token st = Some rd \<and> token rd = t
     \<and> \<not> reset_data.expiresAt rd < now
     \<and> getUsers st = pre @ u # post
     \<and> toLowerCase (user_view.email u) = toLowerCase (reset_data.email rd)
     \<and> (\<forall>x\<in>set pre. toLowerCase (user_view.email x) \<noteq> toLowerCase (reset_data.email rd))"
proof -
  obtain res st1 where v: "validateResetToken now t st = (res, st1)"
    by (cases "validateResetToken now t st")
  from r v obtain em where res: "res = Success em"
    by (cases res) (simp_all add: resetPassword_def)
  from validateResetToken_Success [of now t st em st1] v res obtain rd where
    e: "st1 = st" and rd: "nexus_reset_token st = Some rd" "token rd = t"
      "\<not> reset_data.expiresAt rd < now" "reset_data.email rd = em"
    by blast
  let ?P = "\<lambda>u. toLowerCase (user_view.email u) = toLowerCase em"
  have "findIndex ?P (getUsers st) \<noteq> - 1"
  proof
    assume "findIndex ?P (getUsers st) = - 1"
    with r v res e show False by (simp add: resetPassword_def Let_def)
  qed
  from findIndex_split [OF this] obtain pre u post where
    "getUsers st = pre @ u # post" "?P u" "\<forall>y\<in>set pre. \<not> ?P y" by blast
  with rd show ?thesis by blast
qed

lemma pending_users: "getUsers pending = DEMO_USERS"
  by (simp add: pending_def fresh_def getUsers_def)

lemma pending_valid:
  "validateResetToken 0 ''reset_abc0'' pending = (Success ''user@example.com'', pending)"
  by (simp add: validateResetToken_def pending_def pending_token_def)

lemma lower_user: "toLowerCase ''user@example.com'' = ''user@example.com''"
  by code_simp

lemma pending_match:
  "toLowerCase (user_view.email seed_user) = toLowerCase ''user@example.com''"
  "\<forall>x\<in>set seed_pre. toLowerCase (user_view.email x) \<noteq> toLowerCase ''user@example.com''"
  using seed_user_lower seed_pre_miss by (simp_all add: lower_user)

lemma pending_split: "getUsers pending = seed_pre @ seed_user # seed_post"
  using seed_split by (simp add: pending_users)

lemma sanitize_password: "sanitize (u\<lparr>password := q\<rparr>) = sanitize u"
  by (simp add: sanitize_def)

text \<open>
  C8. A successful \<open>resetPassword\<close> changes the password field of one record and nothing
  else of the user list: the list it read is \<open>pre @ u # post\<close>, where \<open>u\<close> is the
  first user whose email equals the token's email after lower-casing both, and the users
  slot then holds \<open>pre\<close>, \<open>u\<close> with the new password, and \<open>post\<close>. So every other
  record is as it was, the list has its length and order, and email, role, type and name
  of every record, the changed one too, are as they were.
\<close>

theorem resetPassword_frame:
  "resetPassword now t q st = (Success m, st') \<longrightarrow>
     (\<exists>rd pre u post.
        nexus_reset_token st = Some rd
        \<and> getUsers st = pre @ u # post
        \<and> toLowerCase (user_view.email u) = toLowerCase (reset_data.email rd)
        \<and> (\<forall>x\<in>set pre. toLowerCase (user_view.email x) \<noteq> toLowerCase (reset_data.email rd))
        \<and> nexus_ai_users st' = Some (pre @ u\<lparr>password := q\<rparr> # post))
     \<and> length (getUsers st') = length (getUsers st)
     \<and> map sanitize (getUsers st') = map sanitize (getUsers st)"
proof
  assume r: "resetPassword now t q st = (Success m, st')"
  from resetPassword_Success [OF r] obtain rd pre u post where
    rd: "nexus_reset_token st = Some rd" "token rd = t" "\<not> reset_data.expiresAt rd < now"
    and s: "getUsers st = pre @ u # post"
    and m: "toLowerCase (user_view.email u) = toLowerCase (reset_data.email rd)"
    and f: "\<forall>x\<in>set pre. toLowerCase (user_view.email x) \<noteq> toLowerCase (reset_data.email rd)"
    by blast
  from rd have v: "validateResetToken now t st = (Success (reset_data.email rd), st)"
    by (intro validateResetToken_valid) simp_all
  from resetPassword_update(2) [OF v s m f, of q] r
  have a: "nexus_ai_users st' = Some (pre @ u\<lparr>password := q\<rparr> # post)" by simp
  from resetPassword_update(3) [OF v s m f, of q] r
  have g: "getUsers st' = pre @ u\<lparr>password := q\<rparr> # post" by simp
  from g s have l: "length (getUsers st') = length (getUsers st)" by simp
  from g s have p: "map sanitize (getUsers st') = map sanitize (getUsers st)"
    by (simp add: sanitize_password)
  from rd(1) s m f a l p show
    "(\<exists>rd pre u post.
        nexus_reset_token st = Some rd
        \<and> getUsers st = pre @ u # post
        \<and> toLowerCase (user_view.email u) = toLowerCase (reset_data.email rd)
        \<and> (\<forall>x\<in>set pre. toLowerCase (user_view.email x) \<noteq> toLowerCase (reset_data.email rd))
        \<and> nexus_ai_users st' = Some (pre @ u\<lparr>password := q\<rparr> # post))
     \<and> length (getUsers st') = length (getUsers st)
     \<and> map sanitize (getUsers st') = map sanitize (getUsers st)"
    by blast
qed

theorem resetPassword_frame_witness:
  "fst (resetPassword 0 ''reset_abc0'' ''NewPass1!'' pending) =
     Success ''Password changed successfully. Redirecting to login...''
   \<and> map sanitize (getUsers (snd (resetPassword 0 ''reset_abc0'' ''NewPass1!'' pending))) =
       map sanitize DEMO_USERS
   \<and> length (getUsers (snd (resetPassword 0 ''reset_abc0'' ''NewPass1!'' pending))) = 5"
proof -
  let ?r = "resetPassword 0 ''reset_abc0'' ''NewPass1!'' pending"
  have 1: "fst ?r = Success ''Password changed successfully. Redirecting to login...''"
    by (rule resetPassword_update(1) [OF pending_valid pending_split pending_match])
  then have "?r = (Success ''Password changed successfully. Redirecting to login...'', snd ?r)"
    by (metis prod.collapse)
  with resetPassword_frame [of 0 "''reset_abc0''" "''NewPass1!''" pending _ "snd ?r"]
  have "length (getUsers (snd ?r)) = length (getUsers pending)
     \<and> map sanitize (getUsers (snd ?r)) = map sanitize (getUsers pending)"
    by blast
  with 1 show ?thesis by (simp add: pending_users) (simp add: DEMO_USERS_def)
qed

text \<open>
  C10. \<open>resetPassword\<close> checks neither the format nor the strength of the new password.
  For every state whose token slot holds the given token, not expired, and whose user list
  has a first user \<open>u\<close> whose email equals the token's email after lower-casing both, and
  for every string \<open>q\<close>, the empty one too: \<open>resetPassword\<close> succeeds and the stored
  password of \<open>u\<close> is \<open>q\<close> afterwards, every other record being as it was.
\<close>

theorem resetPassword_unvalidated:
  "nexus_reset_token st = Some rd \<and> token rd = t \<and> \<not> reset_data.expiresAt rd < now
   \<and> getUsers st = pre @ u # post
   \<and> toLowerCase (user_view.email u) = toLowerCase (reset_data.email rd)
   \<and> (\<forall>x\<in>set pre. toLowerCase (user_view.email x) \<noteq> toLowerCase (reset_data.email rd)) \<longrightarrow>
     fst (resetPassword now t q st) =
       Success ''Password changed successfully. Redirecting to login...''
     \<and> nexus_ai_users (snd (resetPassword now t q st)) = Some (pre @ u\<lparr>password := q\<rparr> # post)
     \<and> getUsers (snd (resetPassword now t q st)) = pre @ u\<lparr>password := q\<rparr> # post
     \<and> password (getUsers (snd (resetPassword now t q st)) ! length pre) = q"
proof (intro impI, elim conjE)
  assume rd: "nexus_reset_token st = Some rd" "token rd = t" "\<not> reset_data.expiresAt rd < now"
    and s: "getUsers st = pre @ u # post"
    and m: "toLowerCase (user_view.email u) = toLowerCase (reset_data.email rd)"
    and f: "\<forall>x\<in>set pre. toLowerCase (user_view.email x) \<noteq> toLowerCase (reset_data.email rd)"
  from rd have v: "validateResetToken now t st = (Success (reset_data.email rd), st)"
    by (intro validateResetToken_valid) simp_all
  note u = resetPassword_update [OF v s m f, of q]
  from u(3) have "password (getUsers (snd (resetPassword now t q st)) ! length pre) = q"
    by simp
  with u(1) u(2) u(3) show "fst (resetPassword now t q st) =
       Success ''Password changed successfully. Redirecting to login...''
     \<and> nexus_ai_users (snd (resetPassword now t q st)) = Some (pre @ u\<lparr>password := q\<rparr> # post)
     \<and> getUsers (snd (resetPassword now t q st)) = pre @ u\<lparr>password := q\<rparr> # post
     \<and> password (getUsers (snd (resetPassword now t q st)) ! length pre) = q"
    by blast
qed

theorem resetPassword_unvalidated_witness:
  "fst (resetPassword 0 ''reset_abc0'' '''' pending) =
     Success ''Password changed successfully. Redirecting to login...''
   \<and> getUsers (snd (resetPassword 0 ''reset_abc0'' '''' pending)) =
       seed_pre @ seed_user\<lparr>password := ''''\<rparr> # seed_post
   \<and> password (getUsers (snd (resetPassword 0 ''reset_abc0'' '''' pending)) ! 3) = ''''
   \<and> score (checkPasswordStrength '''') = 0"
proof -
  have h: "nexus_reset_token pending = Some pending_token \<and> token pending_token = ''reset_abc0''
      \<and> \<not> reset_data.expiresAt pending_token < 0"
    by (simp add: pending_def pending_token_def)
  have e: "reset_data.email pending_token = ''user@example.com''"
    by (simp add: pending_token_def)
  have l: "length seed_pre = 3" by (simp add: seed_pre_def DEMO_USERS_def)
  have m: "toLowerCase (user_view.email seed_user) = toLowerCase (reset_data.email pending_token)
      \<and> (\<forall>x\<in>set seed_pre.
            toLowerCase (user_view.email x) \<noteq> toLowerCase (reset_data.email pending_token))"
    using pending_match by (simp add: e)
  from resetPassword_unvalidated [of pending pending_token "''reset_abc0''" 0 seed_pre seed_user
      seed_post "''''"] h pending_split m
  have "fst (resetPassword 0 ''reset_abc0'' '''' pending) =
       Success ''Password changed successfully. Redirecting to login...''
     \<and> getUsers (snd (resetPassword 0 ''reset_abc0'' '''' pending)) =
         seed_pre @ seed_user\<lparr>password := ''''\<rparr> # seed_post
     \<and> password (getUsers (snd (resetPassword 0 ''reset_abc0'' '''' pending)) ! length seed_pre)
         = ''''"
    by blast
  then have "fst (resetPassword 0 ''reset_abc0'' '''' pending) =
       Success ''Password changed successfully. Redirecting to login...''
     \<and> getUsers (snd (resetPassword 0 ''reset_abc0'' '''' pending)) =
         seed_pre @ seed_user\<lparr>password := ''''\<rparr> # seed_post
     \<and> password (getUsers (snd (resetPassword 0 ''reset_abc0'' '''' pending)) ! 3) = ''''"
    unfolding l .
  with strength_empty show ?thesis by blast
qed

subsection \<open>The whole reset flow\<close>

lemma distinct_first_match:
  "distinct (map f xs) \<Longrightarrow> u \<in> set xs \<Longrightarrow>
   \<exists>pre post. xs = pre @ u # post \<and> (\<forall>x\<in>set pre. f x \<noteq> f u)"
proof -
  assume d: "distinct (map f xs)" and "u \<in> set xs"
  then obtain pre post where s: "xs = pre @ u # post" by (auto dest: split_list)
  with d have "f u \<notin> f ` set pre" by simp
  then have "\<forall>x\<in>set pre. f x \<noteq> f u" by (auto simp: image_iff)
  with s show ?thesis by blast
qed

lemma getUsers_reset_slot: "getUsers (st\<lparr>nexus_reset_token := v\<rparr>) = getUsers st"
  by (simp add: getUsers_def split: option.splits)



text \<open>
  Every user of a store that holds the seeded emails, with whatever passwords, is the
  first match of its own email: the lookup that the flow below starts from finds it,
  before and after any number of resets.
\<close>

lemma seeded_first_match:
  assumes e: "map user_view.email (getUsers st) = map user_view.email DEMO_USERS"
    and u: "u \<in> set (getUsers st)"
  shows "\<exists>pre post. getUsers st = pre @ u # post
     \<and> (\<forall>x\<in>set pre. toLowerCase (user_view.email x) \<noteq> toLowerCase (user_view.email u))"
proof -
  have "map (\<lambda>x. toLowerCase (user_view.email x)) (getUsers st) =
      map toLowerCase (map user_view.email (getUsers st))"
    by (simp add: comp_def)
  also have "\<dots> = map toLowerCase (map user_view.email DEMO_USERS)"
    by (simp only: e)
  also have "\<dots> = map (\<lambda>x. toLowerCase (user_view.email x)) DEMO_USERS"
    by (simp add: comp_def)
  finally have "distinct (map (\<lambda>x. toLowerCase (user_view.email x)) (getUsers st))"
    using lower_seed_distinct by (simp only:)
  from distinct_first_match [OF this u] show ?thesis .
qed






subsection \<open>Login with a Google hint\<close>

lemma loginWithGoogle_state: "snd (loginWithGoogle h st) = st"
  by (simp add: loginWithGoogle_def Let_def)

lemma loginWithGoogle_hint_absent:
  assumes h: "h \<noteq> []" and a: "\<forall>x\<in>set (getUsers st). user_view.email x \<noteq> h"
  shows "loginWithGoogle (Some h) st =
     (Success \<lparr>user_view.email = h, role = ''Attendee'', type = ''normal'',
        name = ''Google User''\<rparr>, st)"
proof -
  from a have "find (\<lambda>u. Some (user_view.email u) = Some h) (getUsers st) = None"
    by (simp add: find_None_iff)
  with h show ?thesis by (simp add: loginWithGoogle_def Let_def)
qed

lemma loginWithGoogle_hint_found:
  assumes h: "h \<noteq> []" and f: "find (\<lambda>u. user_view.email u = h) (getUsers st) = Some u"
  shows "loginWithGoogle (Some h) st = (Success (sanitize u), st)"
  using h f by (simp add: loginWithGoogle_def Let_def sanitize_def)

lemma unique_email:
  assumes d: "distinct (map (\<lambda>x. toLowerCase (user_view.email x)) xs)"
    and u: "u \<in> set xs" and x: "x \<in> set xs"
    and e: "toLowerCase (user_view.email x) = toLowerCase (user_view.email u)"
  shows "x = u"
proof -
  from d have "inj_on (\<lambda>x. toLowerCase (user_view.email x)) (set xs)"
    by (simp add: distinct_map)
  with u x e show ?thesis by (auto dest: inj_onD)
qed

text \<open>
  C9. The lookup of the hint email in \<open>loginWithGoogle\<close> compares the strings as they
  are, where login and reset request compare them lower-cased. In every state whose stored
  emails are pairwise different after lower-casing (the data model's unique key, which the
  seed list has and no operation changes), for every stored user \<open>u\<close> and every hint \<open>h\<close>
  that equals \<open>u\<close>'s email after lower-casing both but not as a string:
  \<open>loginWithGoogle h\<close> succeeds with the made-up user of email \<open>h\<close>, role \<open>Attendee\<close>,
  type \<open>normal\<close> and name \<open>Google User\<close>, which is not the view of \<open>u\<close>, and leaves the
  state, and so the user list, as it is; \<open>validateLogin h\<close> with \<open>u\<close>'s password and
  \<open>handleForgotPassword h\<close> do find \<open>u\<close>.
\<close>

theorem loginWithGoogle_case_sensitive:
  "distinct (map (\<lambda>x. toLowerCase (user_view.email x)) (getUsers st))
   \<and> u \<in> set (getUsers st)
   \<and> toLowerCase h = toLowerCase (user_view.email u) \<and> h \<noteq> user_view.email u \<longrightarrow>
     loginWithGoogle (Some h) st =
       (Success \<lparr>user_view.email = h, role = ''Attendee'', type = ''normal'',
          name = ''Google User''\<rparr>, st)
     \<and> fst (loginWithGoogle (Some h) st) \<noteq> Success (sanitize u)
     \<and> getUsers (snd (loginWithGoogle (Some h) st)) = getUsers st
     \<and> validateLogin h (password u) st = (Success (sanitize u), st)
     \<and> map_option reset_data.email (nexus_reset_token (snd (handleForgotPassword r tTok tNow h st)))
         = Some (user_view.email u)"
proof (intro impI, elim conjE)
  assume d: "distinct (map (\<lambda>x. toLowerCase (user_view.email x)) (getUsers st))"
    and u: "u \<in> set (getUsers st)"
    and l: "toLowerCase h = toLowerCase (user_view.email u)"
    and n: "h \<noteq> user_view.email u"
  have h: "h \<noteq> []"
  proof
    assume "h = []"
    with l have "user_view.email u = []" by (simp add: toLowerCase_def)
    with \<open>h = []\<close> n show False by simp
  qed
  have a: "\<forall>x\<in>set (getUsers st). user_view.email x \<noteq> h"
  proof
    fix x assume x: "x \<in> set (getUsers st)"
    show "user_view.email x \<noteq> h"
    proof
      assume e: "user_view.email x = h"
      with l have "toLowerCase (user_view.email x) = toLowerCase (user_view.email u)" by simp
      from unique_email [OF d u x this] e n show False by simp
    qed
  qed
  note g = loginWithGoogle_hint_absent [OF h a]
  from n have v: "fst (loginWithGoogle (Some h) st) \<noteq> Success (sanitize u)"
    by (auto simp: g sanitize_def)
  have f: "find (\<lambda>x. toLowerCase (user_view.email x) = toLowerCase h) (getUsers st) = Some u"
    unfolding l by (rule find_distinct [OF d u])
  from validateLogin_found [OF f, of "password u"]
  have w: "validateLogin h (password u) st = (Success (sanitize u), st)" by simp
  from handleForgotPassword_found [OF f, of r tTok tNow]
  have k: "map_option reset_data.email
      (nexus_reset_token (snd (handleForgotPassword r tTok tNow h st))) = Some (user_view.email u)"
    by simp
  from g v w k show "loginWithGoogle (Some h) st =
       (Success \<lparr>user_view.email = h, role = ''Attendee'', type = ''normal'',
          name = ''Google User''\<rparr>, st)
     \<and> fst (loginWithGoogle (Some h) st) \<noteq> Success (sanitize u)
     \<and> getUsers (snd (loginWithGoogle (Some h) st)) = getUsers st
     \<and> validateLogin h (password u) st = (Success (sanitize u), st)
     \<and> map_option reset_data.email (nexus_reset_token (snd (handleForgotPassword r tTok tNow h st)))
         = Some (user_view.email u)"
    by (simp add: loginWithGoogle_state)
qed

theorem loginWithGoogle_case_sensitive_witness:
  "loginWithGoogle (Some ''USER@example.com'') fresh =
     (Success \<lparr>user_view.email = ''USER@example.com'', role = ''Attendee'', type = ''normal'',
        name = ''Google User''\<rparr>, fresh)
   \<and> validateLogin ''USER@example.com'' ''User@123'' fresh =
     (Success \<lparr>user_view.email = ''user@example.com'', role = ''Attendee'', type = ''normal'',
        name = ''Emily Davis''\<rparr>, fresh)
   \<and> loginWithGoogle (Some ''user@example.com'') fresh =
     (Success \<lparr>user_view.email = ''user@example.com'', role = ''Attendee'', type = ''normal'',
        name = ''Emily Davis''\<rparr>, fresh)"
proof -
  have a: "distinct (map (\<lambda>x. toLowerCase (user_view.email x)) (getUsers fresh))
      \<and> seed_user \<in> set (getUsers fresh)
      \<and> toLowerCase ''USER@example.com'' = toLowerCase (user_view.email seed_user)
      \<and> ''USER@example.com'' \<noteq> user_view.email seed_user"
    using lower_seed_distinct seed_user_lower
    by (simp add: getUsers_fresh lower_USER) (simp add: seed_split seed_user_eq)
  have p: "password seed_user = ''User@123''"
    and v: "sanitize seed_user = \<lparr>user_view.email = ''user@example.com'', role = ''Attendee'',
        type = ''normal'', name = ''Emily Davis''\<rparr>"
    by (simp_all add: seed_user_eq sanitize_def)
  from loginWithGoogle_case_sensitive [where st = fresh and u = seed_user
      and h = "''USER@example.com''" and r = "''abc''" and tTok = 5 and tNow = 5,
      THEN mp, OF a]
  have 1: "loginWithGoogle (Some ''USER@example.com'') fresh =
     (Success \<lparr>user_view.email = ''USER@example.com'', role = ''Attendee'', type = ''normal'',
        name = ''Google User''\<rparr>, fresh)
   \<and> validateLogin ''USER@example.com'' ''User@123'' fresh =
     (Success \<lparr>user_view.email = ''user@example.com'', role = ''Attendee'', type = ''normal'',
        name = ''Emily Davis''\<rparr>, fresh)"
    unfolding p v by (elim conjE, intro conjI)
  have "find (\<lambda>u. user_view.email u = ''user@example.com'') (getUsers fresh) = Some seed_user"
    by (simp add: getUsers_fresh DEMO_USERS_def seed_user_def)
  from loginWithGoogle_hint_found [OF _ this]
  have 2: "loginWithGoogle (Some ''user@example.com'') fresh =
     (Success \<lparr>user_view.email = ''user@example.com'', role = ''Attendee'', type = ''normal'',
        name = ''Emily Davis''\<rparr>, fresh)"
    by (simp add: v)
  from 1 2 show ?thesis by (elim conjE, intro conjI)
qed

subsection \<open>The stored emails stay a unique key\<close>

lemma resetPassword_Failure_users:
  "resetPassword now t q st = (Failure e, st') \<Longrightarrow> getUsers st' = getUsers st"
proof -
  assume r: "resetPassword now t q st = (Failure e, st')"
  obtain res st1 where v: "validateResetToken now t st = (res, st1)"
    by (cases "validateResetToken now t st")
  from validateResetToken_users [of now t st] v
  have g: "getUsers st1 = getUsers st" by (auto simp: getUsers_def split: option.splits)
  show ?thesis
  proof (cases res)
    case (Failure e')
    with r v g show ?thesis by (simp add: resetPassword_def)
  next
    case (Success em)
    with r v g show ?thesis
      by (simp add: resetPassword_def Let_def split: if_splits)
  qed
qed

lemma resetPassword_views:
  "map sanitize (getUsers (snd (resetPassword now t q st))) = map sanitize (getUsers st)"
proof (cases "resetPassword now t q st")
  case (Pair res st')
  show ?thesis
  proof (cases res)
    case (Failure e)
    with Pair resetPassword_Failure_users [of now t q st e st'] show ?thesis by simp
  next
    case (Success m)
    with Pair have r: "resetPassword now t q st = (Success m, st')" by simp
    from resetPassword_Success [OF r] obtain rd pre u post where
      rd: "nexus_reset_token st = Some rd" "token rd = t" "\<not> reset_data.expiresAt rd < now"
      and s: "getUsers st = pre @ u # post"
      and m: "toLowerCase (user_view.email u) = toLowerCase (reset_data.email rd)"
      and f: "\<forall>x\<in>set pre. toLowerCase (user_view.email x) \<noteq> toLowerCase (reset_data.email rd)"
      by blast
    from rd have v: "validateResetToken now t st = (Success (reset_data.email rd), st)"
      by (intro validateResetToken_valid) simp_all
    from resetPassword_update(3) [OF v s m f, of q] s show ?thesis
      by (simp add: sanitize_password)
  qed
qed

lemma unique_key_kept:
  "distinct (map (\<lambda>x. toLowerCase (user_view.email x)) (getUsers fresh))"
  "distinct (map (\<lambda>x. toLowerCase (user_view.email x)) (getUsers (snd (resetPassword now t q st))))
     = distinct (map (\<lambda>x. toLowerCase (user_view.email x)) (getUsers st))"
  "getUsers (snd (handleForgotPassword r tTok tNow e st)) = getUsers st"
  "getUsers (snd (validateResetToken now t st)) = getUsers st"
  "getUsers (snd (validateLogin e p st)) = getUsers st"
  "getUsers (createSession tLogin tNow v st) = getUsers st"
  "getUsers (snd (getSession now st)) = getUsers st"
  "getUsers (logout st) = getUsers st"
  "getUsers (initAuth st) = getUsers st"
  "getUsers (snd (loginWithSSO d st)) = getUsers st"
  "getUsers (snd (loginWithGoogle h st)) = getUsers st"
proof -
  show "distinct (map (\<lambda>x. toLowerCase (user_view.email x)) (getUsers fresh))"
    using lower_seed_distinct by (simp add: getUsers_fresh)
  show "distinct (map (\<lambda>x. toLowerCase (user_view.email x)) (getUsers (snd (resetPassword now t q st))))
     = distinct (map (\<lambda>x. toLowerCase (user_view.email x)) (getUsers st))"
  proof -
    have "map (\<lambda>v. toLowerCase (user_view.email v))
        (map sanitize (getUsers (snd (resetPassword now t q st)))) =
      map (\<lambda>v. toLowerCase (user_view.email v)) (map sanitize (getUsers st))"
      by (simp only: resetPassword_views)
    then have "map (\<lambda>x. toLowerCase (user_view.email x)) (getUsers (snd (resetPassword now t q st)))
      = map (\<lambda>x. toLowerCase (user_view.email x)) (getUsers st)"
      by (simp add: sanitize_def comp_def)
    then show ?thesis by (simp only:)
  qed
  show "getUsers (snd (handleForgotPassword r tTok tNow e st)) = getUsers st"
    by (simp add: handleForgotPassword_def Let_def getUsers_reset_slot split: option.splits)
  show "getUsers (snd (validateResetToken now t st)) = getUsers st"
    using validateResetToken_users [of now t st] by (auto simp: getUsers_def split: option.splits)
  show "getUsers (snd (validateLogin e p st)) = getUsers st"
    by (simp add: validateLogin_state)
  show "getUsers (createSession tLogin tNow v st) = getUsers st"
    by (simp add: createSession_def getUsers_def split: option.splits)
  show "getUsers (snd (getSession now st)) = getUsers st"
    by (simp add: getSession_def logout_def getUsers_def split: option.splits)
  show "getUsers (logout st) = getUsers st"
    by (simp add: logout_def getUsers_def split: option.splits)
  show "getUsers (initAuth st) = getUsers st"
    by (simp add: initAuth_def getUsers_def split: option.splits)
  show "getUsers (snd (loginWithSSO d st)) = getUsers st"
    by (simp add: loginWithSSO_state)
  show "getUsers (snd (loginWithGoogle h st)) = getUsers st"
    by (simp add: loginWithGoogle_state)
qed

end
